theory Spec2Isabelle
  imports Complex_Main "HOL-Library.AList" "HOL-Library.Char_ord" "HOL-Library.List_Lexorder"
begin

section \<open>Values, exceptions and the annotation table\<close>

text \<open>
  The label editor (\<^verbatim>\<open>editor.py\<close>) keeps a pandas data frame of DeepLabCut labels: one
  row per video frame and one column per key \<^verbatim>\<open>(data_name, label_name, channel)\<close>, the
  channel being one of the strings \<^verbatim>\<open>x\<close>, \<^verbatim>\<open>y\<close>, \<^verbatim>\<open>likelihood\<close>. A cell is a 64-bit
  float. The program never does arithmetic on a cell: it only tests it for NaN, rounds it to
  an integer, and overwrites it with an integer pixel position. A cell is therefore modelled
  as NaN, an infinity, or a finite number carried as a real.
\<close>

datatype f64 = NaN | PInf | NInf | Num real

fun isnan :: "f64 \<Rightarrow> bool" where
  "isnan NaN = True"
| "isnan _ = False"

text \<open>Python exceptions that the modelled code can raise.\<close>

datatype error = KeyError | IndexError | ValueError | OverflowError

text \<open>Sequencing of fallible steps: the first exception ends the computation.\<close>

definition ebind :: "error + 'a \<Rightarrow> ('a \<Rightarrow> error + 'b) \<Rightarrow> error + 'b" where
  "ebind m f = (case m of Inl e \<Rightarrow> Inl e | Inr v \<Rightarrow> f v)"

text \<open>
  \<^verbatim>\<open>round\<close> on a float rounds half to even; \<^verbatim>\<open>int(round(v))\<close> raises \<^verbatim>\<open>ValueError\<close> on NaN
  and \<^verbatim>\<open>OverflowError\<close> on an infinity.
\<close>

definition round_half_even :: "real \<Rightarrow> int" where
  "round_half_even r =
     (let f = \<lfloor>r\<rfloor>; d = r - of_int f
      in if d < 1 / 2 then f
         else if 1 / 2 < d then f + 1
         else if even f then f else f + 1)"

fun int_round :: "f64 \<Rightarrow> error + int" where
  "int_round NaN = Inl ValueError"
| "int_round PInf = Inl OverflowError"
| "int_round NInf = Inl OverflowError"
| "int_round (Num r) = Inr (round_half_even r)"

type_synonym col_key = "string \<times> string \<times> string"

text \<open>
  The data frame is the list of its columns in file order, each with its key. Row labels
  are the frame numbers \<open>0, 1, \<dots>\<close> (a range index). Column keys are taken to be unique, as
  they are in a DeepLabCut file; a lookup finds the first column with the key.
\<close>

type_synonym table = "(col_key \<times> f64 list) list"

definition column :: "table \<Rightarrow> col_key \<Rightarrow> error + f64 list" where
  \<comment> \<open>\<^verbatim>\<open>df[key]\<close>: a missing column raises \<^verbatim>\<open>KeyError\<close>.\<close>
  "column df k = (case map_of df k of None \<Rightarrow> Inl KeyError | Some c \<Rightarrow> Inr c)"

definition series_get :: "f64 list \<Rightarrow> int \<Rightarrow> error + f64" where
  \<comment> \<open>\<^verbatim>\<open>series[frame]\<close> on a range index looks the row up by label: a frame number that is
      not a row (negative ones too) raises \<^verbatim>\<open>KeyError\<close>.\<close>
  "series_get s i = (if 0 \<le> i \<and> i < int (length s) then Inr (s ! nat i) else Inl KeyError)"

definition frame_set :: "table \<Rightarrow> col_key \<Rightarrow> int \<Rightarrow> int \<Rightarrow> error + table" where
  \<comment> \<open>\<^verbatim>\<open>df[key][frame] = v\<close> with an integer \<^verbatim>\<open>v\<close>: the program relies on the chained
      assignment writing through to the data frame, and the float column stores the integer
      as a float. What pandas does for a frame number that is not a row depends on its
      version; the model raises there, and no result below depends on it.\<close>
  "frame_set df k i v =
     (case map_of df k of
        None \<Rightarrow> Inl KeyError
      | Some c \<Rightarrow>
          if 0 \<le> i \<and> i < int (length c)
          then Inr (AList.update k (c[nat i := Num (of_int v)]) df)
          else Inl KeyError)"

definition np_index :: "'a list \<Rightarrow> int \<Rightarrow> error + 'a" where
  \<comment> \<open>Indexing a numpy array: a negative index counts from the end.\<close>
  "np_index xs i =
     (if 0 \<le> i \<and> i < int (length xs) then Inr (xs ! nat i)
      else if i < 0 \<and> - int (length xs) \<le> i then Inr (xs ! nat (int (length xs) + i))
      else Inl IndexError)"

definition np_unique :: "string list \<Rightarrow> string list" where
  \<comment> \<open>\<^verbatim>\<open>np.unique\<close>: the distinct elements in ascending order.\<close>
  "np_unique xs = sort (remdups xs)"

text \<open>A cell of the table, when the column and the row exist.\<close>

definition cell :: "table \<Rightarrow> col_key \<Rightarrow> int \<Rightarrow> f64 option" where
  "cell df k i =
     (case map_of df k of
        None \<Rightarrow> None
      | Some c \<Rightarrow> if 0 \<le> i \<and> i < int (length c) then Some (c ! nat i) else None)"

section \<open>File names\<close>

text \<open>
  The functions of \<^verbatim>\<open>os.path\<close> (POSIX flavour) and of \<^verbatim>\<open>str\<close> that the program calls to
  derive its output paths, following the Python standard library.
\<close>

fun split_char :: "char \<Rightarrow> string \<Rightarrow> string list" where
  "split_char c [] = [[]]"
| "split_char c (x # xs) =
     (if x = c then [] # split_char c xs
      else (case split_char c xs of [] \<Rightarrow> [[x]] | w # ws \<Rightarrow> (x # w) # ws))"

fun join_with :: "string \<Rightarrow> string list \<Rightarrow> string" where
  "join_with sep [] = []"
| "join_with sep [w] = w"
| "join_with sep (w # ws) = w @ sep @ join_with sep ws"

definition startswith :: "string \<Rightarrow> string \<Rightarrow> bool" where
  "startswith s p = (take (length p) s = p)"

definition norm_step :: "nat \<Rightarrow> string list \<Rightarrow> string \<Rightarrow> string list" where
  \<comment> \<open>One round of the loop over the path components in \<^verbatim>\<open>normpath\<close>.\<close>
  "norm_step initial_slashes new_comps cmp =
     (if cmp = [] \<or> cmp = ''.'' then new_comps
      else if cmp \<noteq> ''..'' \<or> (initial_slashes = 0 \<and> new_comps = [])
              \<or> (new_comps \<noteq> [] \<and> last new_comps = ''..'')
      then new_comps @ [cmp]
      else if new_comps \<noteq> [] then butlast new_comps
      else new_comps)"

definition normpath :: "string \<Rightarrow> string" where
  "normpath path =
     (if path = [] then ''.''
      else
        let initial_slashes =
              (if startswith path ''/''
               then (if startswith path ''//'' \<and> \<not> startswith path ''///'' then 2 else 1)
               else (0::nat));
            comps = foldl (norm_step initial_slashes) [] (split_char CHR ''/'' path);
            p = replicate initial_slashes CHR ''/'' @ join_with ''/'' comps
        in if p = [] then ''.'' else p)"

fun rfind_char :: "char \<Rightarrow> string \<Rightarrow> int" where
  \<comment> \<open>\<^verbatim>\<open>p.rfind(c)\<close>: the index of the last \<^verbatim>\<open>c\<close>, or \<open>-1\<close>.\<close>
  "rfind_char c [] = -1"
| "rfind_char c (x # xs) =
     (let r = rfind_char c xs
      in if 0 \<le> r then r + 1 else if x = c then 0 else -1)"

definition basename :: "string \<Rightarrow> string" where
  "basename p = drop (nat (rfind_char CHR ''/'' p + 1)) p"

definition rstrip_char :: "char \<Rightarrow> string \<Rightarrow> string" where
  "rstrip_char c s = rev (dropWhile (\<lambda>x. x = c) (rev s))"

definition dirname :: "string \<Rightarrow> string" where
  "dirname p =
     (let head = take (nat (rfind_char CHR ''/'' p + 1)) p
      in if head \<noteq> [] \<and> head \<noteq> replicate (length head) CHR ''/''
         then rstrip_char CHR ''/'' head else head)"

function splitext_loop :: "string \<Rightarrow> nat \<Rightarrow> nat \<Rightarrow> string \<times> string" where
  \<comment> \<open>The loop of \<^verbatim>\<open>splitext\<close> that skips the leading dots of the file name.\<close>
  "splitext_loop p filenameIndex dotIndex =
     (if filenameIndex < dotIndex
      then (if [p ! filenameIndex] \<noteq> ''.'' then (take dotIndex p, drop dotIndex p)
            else splitext_loop p (filenameIndex + 1) dotIndex)
      else (p, []))"
  by pat_completeness auto
termination
  by (relation "measure (\<lambda>(p, f, d). d - f)") auto

definition splitext :: "string \<Rightarrow> string \<times> string" where
  "splitext p =
     (let sepIndex = rfind_char CHR ''/'' p; dotIndex = rfind_char CHR ''.'' p
      in if sepIndex < dotIndex then splitext_loop p (nat (sepIndex + 1)) (nat dotIndex)
         else (p, []))"

definition path_join :: "string \<Rightarrow> string \<Rightarrow> string" where
  \<comment> \<open>\<^verbatim>\<open>os.path.join(a, b)\<close>.\<close>
  "path_join a b =
     (if startswith b ''/'' then b
      else if a = [] \<or> (a \<noteq> [] \<and> last a = CHR ''/'') then a @ b
      else a @ ''/'' @ b)"

text \<open>
  \<^verbatim>\<open>s.rsplit(sep)\<close> without a limit cuts at every occurrence of \<^verbatim>\<open>sep\<close>, found from the
  right; an empty separator raises \<^verbatim>\<open>ValueError\<close>.
\<close>

definition rfind :: "string \<Rightarrow> string \<Rightarrow> nat option" where
  \<comment> \<open>The start of the rightmost occurrence of \<^verbatim>\<open>sep\<close> in \<^verbatim>\<open>s\<close>.\<close>
  "rfind sep s =
     (if length s < length sep then None
      else List.find (\<lambda>i. take (length sep) (drop i s) = sep)
             (rev [0 ..< length s - length sep + 1]))"

lemma rfind_Some:
  assumes "rfind sep s = Some pos"
  shows "pos + length sep \<le> length s" and "take (length sep) (drop pos s) = sep"
proof -
  let ?P = "\<lambda>i. take (length sep) (drop i s) = sep"
  let ?cands = "rev [0 ..< length s - length sep + 1]"
  from assms have le: "length sep \<le> length s" and f: "List.find ?P ?cands = Some pos"
    by (auto simp: rfind_def split: if_splits)
  from f obtain i where i: "i < length ?cands" and Pi: "?P (?cands ! i)"
    and pi: "pos = ?cands ! i"
    unfolding find_Some_iff by blast
  have "pos \<in> set ?cands" unfolding pi using i by (rule nth_mem)
  then have "pos < length s - length sep + 1" by auto
  with le show "pos + length sep \<le> length s" by simp
  from Pi show "take (length sep) (drop pos s) = sep" unfolding pi .
qed

function rsplit_loop :: "string \<Rightarrow> string \<Rightarrow> string list \<Rightarrow> string list" where
  "rsplit_loop sep s acc =
     (if sep = [] then s # acc
      else (case rfind sep s of
              None \<Rightarrow> s # acc
            | Some pos \<Rightarrow> rsplit_loop sep (take pos s) (drop (pos + length sep) s # acc)))"
  by pat_completeness auto
termination
proof (relation "measure (\<lambda>(sep, s, acc). length s)")
  show "wf (measure (\<lambda>(sep, s, acc). length s))" by simp
next
  fix sep s :: string and acc :: "string list" and pos :: nat
  assume "sep \<noteq> []" and "rfind sep s = Some pos"
  then have "pos + length sep \<le> length s" and "0 < length sep"
    by (auto dest: rfind_Some(1))
  then have "pos < length s" by linarith
  then show "((sep, take pos s, drop (pos + length sep) s # acc), (sep, s, acc))
             \<in> measure (\<lambda>(sep, s, acc). length s)"
    by simp
qed

declare rsplit_loop.simps [simp del]

definition rsplit :: "string \<Rightarrow> string \<Rightarrow> error + string list" where
  "rsplit sep s = (if sep = [] then Inl ValueError else Inr (rsplit_loop sep s []))"

section \<open>The editor\<close>

text \<open>
  What the editor writes to disk is kept as a log in the state: each \<^verbatim>\<open>to_hdf\<close> call with
  its path and the table written, each \<^verbatim>\<open>savemat\<close> call with its path and the dictionary
  written. A \<^verbatim>\<open>savemat\<close> dictionary maps a label name to the three arrays of the label.
\<close>

record mat_struct =
  x_arr :: "f64 list"
  y_arr :: "f64 list"
  ll_arr :: "f64 list"

type_synonym mat = "(string \<times> mat_struct) list"

datatype file_write = H5_write string table | Mat_write string mat

text \<open>
  The fields of \<^verbatim>\<open>Editor\<close> that the session reads or changes. The video capture and the
  window belong to OpenCV; of the drawing only the marker handed to \<^verbatim>\<open>imshow\<close> is kept
  (\<open>None\<close>: the frame is shown without a marker), in the list \<open>shown\<close>.
\<close>

record editor =
  label_file :: string
  fixed_label_file :: string
  label_data :: table
  data_name :: string
  label_names :: "string list"
  frame_count :: int
  current_label :: int
  current_frame :: int
  mx :: int
  my :: int
  mouse_pressed :: bool
  changes_made :: bool
  written :: "file_write list"
  shown :: "(int \<times> int) option list"

definition fixed_label_path :: "string \<Rightarrow> error + string" where
  \<comment> \<open>The output path for the fixed labels, as \<^verbatim>\<open>__init__\<close> computes it.\<close>
  "fixed_label_path lf =
     ebind (rsplit ''_Fixed'' (fst (splitext (basename (normpath lf))))) (\<lambda>parts.
       let input_filename = hd parts;
           folder = dirname (normpath lf);
           output_filename = input_filename @ ''_Fixed.h5''
       in Inr (normpath (path_join folder output_filename)))"

definition first_data_name :: "table \<Rightarrow> error + string" where
  \<comment> \<open>\<^verbatim>\<open>df.keys()[0][0]\<close>\<close>
  "first_data_name df = (case df of [] \<Rightarrow> Inl IndexError | (k, c) # rest \<Rightarrow> Inr (fst k))"

definition Editor_init :: "string \<Rightarrow> table \<Rightarrow> int \<Rightarrow> error + editor" where
  \<comment> \<open>\<^verbatim>\<open>Editor.__init__\<close>; \<open>df\<close> is what \<^verbatim>\<open>pd.read_hdf(label_file)\<close> returns and
      \<open>video_frames\<close> the frame count reported by the video capture.\<close>
  "Editor_init lf df video_frames =
     ebind (fixed_label_path lf) (\<lambda>fixed.
     ebind (first_data_name df) (\<lambda>dn.
       Inr \<lparr> label_file = lf, fixed_label_file = fixed, label_data = df, data_name = dn,
             label_names = np_unique (map (\<lambda>k. fst (snd k)) (map fst df)),
             frame_count = video_frames - 1,
             current_label = 0, current_frame = 0, mx = 0, my = 0,
             mouse_pressed = False, changes_made = False,
             written = [], shown = [] \<rparr>))"



definition get_label_xy :: "editor \<Rightarrow> error + (int option \<times> int option)" where
  \<comment> \<open>\<^verbatim>\<open>_get_label_xy\<close>; \<open>None\<close> stands for the \<^verbatim>\<open>np.nan\<close> it returns. Both roundings are
      guarded by the test of \<^verbatim>\<open>x_f\<close>.\<close>
  "get_label_xy ed =
     ebind (np_index (label_names ed) (current_label ed)) (\<lambda>name_x.
     ebind (column (label_data ed) (data_name ed, name_x, ''x'')) (\<lambda>x_ser.
     ebind (series_get x_ser (current_frame ed)) (\<lambda>x_f.
     ebind (np_index (label_names ed) (current_label ed)) (\<lambda>name_y.
     ebind (column (label_data ed) (data_name ed, name_y, ''y'')) (\<lambda>y_ser.
     ebind (series_get y_ser (current_frame ed)) (\<lambda>y_f.
     ebind (if \<not> isnan x_f then map_sum id Some (int_round x_f) else Inr None) (\<lambda>x_i.
     ebind (if \<not> isnan x_f then map_sum id Some (int_round y_f) else Inr None) (\<lambda>y_i.
       Inr (x_i, y_i)))))))))"

definition draw_label :: "int option \<Rightarrow> int option \<Rightarrow> editor \<Rightarrow> editor" where
  \<comment> \<open>\<^verbatim>\<open>_draw_label\<close>: the marker and the label name are drawn when neither value is NaN.\<close>
  "draw_label x y ed =
     ed\<lparr>shown := shown ed @
          [case (x, y) of (Some a, Some b) \<Rightarrow> Some (a, b) | _ \<Rightarrow> None]\<rparr>"

definition display_label :: "int \<Rightarrow> int \<Rightarrow> editor \<Rightarrow> editor" where
  "display_label x y ed = draw_label (Some x) (Some y) ed"

definition save_label :: "int \<Rightarrow> int \<Rightarrow> editor \<Rightarrow> error + editor" where
  \<comment> \<open>\<^verbatim>\<open>_save_label\<close>: both channels of the active cell, then the H5 file, then the flag.\<close>
  "save_label x y ed =
     ebind (np_index (label_names ed) (current_label ed)) (\<lambda>name_x.
     ebind (frame_set (label_data ed) (data_name ed, name_x, ''x'') (current_frame ed) x) (\<lambda>df1.
     ebind (np_index (label_names ed) (current_label ed)) (\<lambda>name_y.
     ebind (frame_set df1 (data_name ed, name_y, ''y'') (current_frame ed) y) (\<lambda>df2.
       Inr (ed\<lparr>label_data := df2,
               written := written ed @ [H5_write (fixed_label_file ed) df2],
               changes_made := True\<rparr>)))))"

definition on_label_trackbar :: "int \<Rightarrow> editor \<Rightarrow> error + editor" where
  "on_label_trackbar val ed =
     (let ed1 = ed\<lparr>current_label := val\<rparr>
      in ebind (get_label_xy ed1) (\<lambda>(x, y). Inr (draw_label x y ed1)))"

definition on_frame_trackbar :: "int \<Rightarrow> editor \<Rightarrow> error + editor" where
  "on_frame_trackbar val ed =
     (let ed1 = ed\<lparr>current_frame := val\<rparr>
      in ebind (get_label_xy ed1) (\<lambda>(x, y). Inr (draw_label x y ed1)))"

datatype mouse_event = EVENT_MOUSEMOVE | EVENT_LBUTTONDOWN | EVENT_LBUTTONUP | EVENT_OTHER

fun edit_label :: "mouse_event \<Rightarrow> int \<Rightarrow> int \<Rightarrow> editor \<Rightarrow> error + editor" where
  "edit_label EVENT_LBUTTONDOWN ex ey ed =
     (let ed1 = ed\<lparr>mx := ex, my := ey\<rparr>
      in ebind (save_label (mx ed1) (my ed1) ed1) (\<lambda>ed2.
           Inr ((display_label (mx ed2) (my ed2) ed2)\<lparr>mouse_pressed := True\<rparr>)))"
| "edit_label EVENT_LBUTTONUP ex ey ed = Inr (ed\<lparr>mouse_pressed := False\<rparr>)"
| "edit_label EVENT_MOUSEMOVE ex ey ed =
     (if mouse_pressed ed
      then (let ed1 = ed\<lparr>mx := ex, my := ey\<rparr>
            in Inr (display_label (mx ed1) (my ed1) ed1))
      else Inr ed)"
| "edit_label EVENT_OTHER ex ey ed = Inr ed"

fun mat_loop :: "table \<Rightarrow> string \<Rightarrow> string list \<Rightarrow> mat \<Rightarrow> error + mat" where
  \<comment> \<open>The loop over the label names in \<^verbatim>\<open>Editor._save_matlab_file\<close>.\<close>
  "mat_loop df dn [] df_out = Inr df_out"
| "mat_loop df dn (label # rest) df_out =
     ebind (column df (dn, label, ''x'')) (\<lambda>x_ser.
     ebind (column df (dn, label, ''y'')) (\<lambda>y_ser.
     ebind (column df (dn, label, ''likelihood'')) (\<lambda>ll_ser.
       mat_loop df dn rest
         (AList.update label \<lparr>x_arr = x_ser, y_arr = y_ser, ll_arr = ll_ser\<rparr> df_out))))"

definition save_matlab_file :: "editor \<Rightarrow> error + (string \<times> editor)" where
  "save_matlab_file ed =
     (let input_filename = fst (splitext (basename (normpath (label_file ed))));
          folder = dirname (normpath (label_file ed));
          output_filename = input_filename @ ''.mat'';
          output_filepath = normpath (path_join folder output_filename)
      in ebind (mat_loop (label_data ed) (data_name ed) (label_names ed) []) (\<lambda>df_out.
           Inr (output_filepath,
                ed\<lparr>written := written ed @ [Mat_write output_filepath df_out]\<rparr>)))"

subsection \<open>The session\<close>

text \<open>
  \<^verbatim>\<open>run\<close> draws, then blocks in \<^verbatim>\<open>cv2.waitKey(0)\<close> until a key is pressed. While it blocks,
  OpenCV delivers the mouse and trackbar events to the callbacks. A session is the list of
  the events in the order of their arrival; an exception ends it.
\<close>

datatype event = Mouse mouse_event int int | LabelTrackbar int | FrameTrackbar int | Key int

datatype session = Running editor | Ended editor

fun session_editor :: "session \<Rightarrow> editor" where
  "session_editor (Running ed) = ed"
| "session_editor (Ended ed) = ed"

definition loop_body :: "editor \<Rightarrow> error + editor" where
  \<comment> \<open>The body of the loop of \<^verbatim>\<open>run\<close> up to \<^verbatim>\<open>waitKey\<close>. Reading the video frame and
      moving the frame slider to the current frame change no field of the editor.\<close>
  "loop_body ed =
     (if mouse_pressed ed
      then ebind (save_label (mx ed) (my ed) ed) (\<lambda>ed'.
             Inr (draw_label (Some (mx ed)) (Some (my ed)) ed'))
      else ebind (get_label_xy ed) (\<lambda>(x, y). Inr (draw_label x y ed)))"

definition on_key :: "int \<Rightarrow> editor \<Rightarrow> editor" where
  "on_key key ed =
     (if key = 44 then ed\<lparr>current_frame := max 0 (current_frame ed - 1)\<rparr>
      else if key = 46 then ed\<lparr>current_frame := min (frame_count ed) (current_frame ed + 1)\<rparr>
      else ed)"

definition finish :: "editor \<Rightarrow> error + editor" where
  \<comment> \<open>What \<^verbatim>\<open>run\<close> does after the loop.\<close>
  "finish ed =
     (if changes_made ed then ebind (save_matlab_file ed) (\<lambda>(output_filepath, ed'). Inr ed')
      else Inr ed)"

fun wait_key :: "event list \<Rightarrow> editor \<Rightarrow> error + session" where
  "wait_key [] ed = Inr (Running ed)"
| "wait_key (Mouse ev ex ey # evs) ed = ebind (edit_label ev ex ey ed) (wait_key evs)"
| "wait_key (LabelTrackbar val # evs) ed = ebind (on_label_trackbar val ed) (wait_key evs)"
| "wait_key (FrameTrackbar val # evs) ed = ebind (on_frame_trackbar val ed) (wait_key evs)"
| "wait_key (Key key # evs) ed =
     (let ed' = on_key key ed
      in if key = 27 then ebind (finish ed') (\<lambda>ed''. Inr (Ended ed''))
         else ebind (loop_body ed') (wait_key evs))"

definition run :: "event list \<Rightarrow> editor \<Rightarrow> error + session" where
  "run evs ed = ebind (loop_body ed) (wait_key evs)"

section \<open>The standalone converter\<close>

record mat_converter =
  mc_label_file :: string
  mc_label_data :: table
  mc_data_name :: string
  mc_label_names :: "string list"

definition MatConverter_init :: "string \<Rightarrow> table \<Rightarrow> error + mat_converter" where
  "MatConverter_init lf df =
     ebind (first_data_name df) (\<lambda>dn.
       Inr \<lparr> mc_label_file = lf, mc_label_data = df, mc_data_name = dn,
             mc_label_names = np_unique (map (\<lambda>k. fst (snd k)) (map fst df)) \<rparr>)"

fun mc_mat_loop :: "mat_converter \<Rightarrow> string list \<Rightarrow> mat \<Rightarrow> error + mat" where
  \<comment> \<open>The loop over the label names in \<^verbatim>\<open>MatConverter._save_matlab_file\<close>.\<close>
  "mc_mat_loop mc [] df_out = Inr df_out"
| "mc_mat_loop mc (label # rest) df_out =
     ebind (column (mc_label_data mc) (mc_data_name mc, label, ''x'')) (\<lambda>x_ser.
     ebind (column (mc_label_data mc) (mc_data_name mc, label, ''y'')) (\<lambda>y_ser.
     ebind (column (mc_label_data mc) (mc_data_name mc, label, ''likelihood'')) (\<lambda>ll_ser.
       mc_mat_loop mc rest
         (AList.update label \<lparr>x_arr = x_ser, y_arr = y_ser, ll_arr = ll_ser\<rparr> df_out))))"

definition mc_save_matlab_file :: "mat_converter \<Rightarrow> error + (string \<times> file_write)" where
  \<comment> \<open>Returns the output path and the \<^verbatim>\<open>savemat\<close> call made.\<close>
  "mc_save_matlab_file mc =
     (let input_filename = fst (splitext (basename (normpath (mc_label_file mc))));
          folder = dirname (normpath (mc_label_file mc));
          output_filename = input_filename @ ''.mat'';
          output_filepath = normpath (path_join folder output_filename)
      in ebind (mc_mat_loop mc (mc_label_names mc) []) (\<lambda>df_out.
           Inr (output_filepath, Mat_write output_filepath df_out)))"

section \<open>Observations\<close>

text \<open>The two coordinate cells of the active (frame, label) pair, \<open>None\<close> where absent.\<close>

definition active_xy :: "editor \<Rightarrow> f64 option \<times> f64 option" where
  "active_xy ed =
     (case np_index (label_names ed) (current_label ed) of
        Inl e \<Rightarrow> (None, None)
      | Inr name \<Rightarrow>
          (cell (label_data ed) (data_name ed, name, ''x'') (current_frame ed),
           cell (label_data ed) (data_name ed, name, ''y'') (current_frame ed)))"

fun h5_writes :: "file_write list \<Rightarrow> (string \<times> table) list" where
  "h5_writes [] = []"
| "h5_writes (H5_write p t # ws) = (p, t) # h5_writes ws"
| "h5_writes (Mat_write p m # ws) = h5_writes ws"


text \<open>
  The \<^verbatim>\<open>savemat\<close> call made by \<^verbatim>\<open>Editor._save_matlab_file\<close>, and the path both classes
  compute for the MAT file: the directory of the label file, its base name without the
  extension, and \<^verbatim>\<open>.mat\<close>.
\<close>

definition last_write :: "string \<times> editor \<Rightarrow> string \<times> file_write" where
  "last_write r = (fst r, last (written (snd r)))"

definition mat_path :: "string \<Rightarrow> string" where
  "mat_path lf =
     normpath (path_join (dirname (normpath lf))
                 (fst (splitext (basename (normpath lf))) @ ''.mat''))"

section \<open>Properties of tables and sessions\<close>

text \<open>
  The data contract of the input table: every label has its three channels, and all
  columns have one row per frame.
\<close>

definition has_channels :: "table \<Rightarrow> string \<Rightarrow> string list \<Rightarrow> bool" where
  "has_channels df dn names =
     list_all (\<lambda>l. list_all (\<lambda>ch. map_of df (dn, l, ch) \<noteq> None) [''x'', ''y'', ''likelihood''])
       names"

definition rectangular :: "nat \<Rightarrow> table \<Rightarrow> bool" where
  "rectangular N df = list_all (\<lambda>c. length (snd c) = N) df"



text \<open>
  Missing together: wherever a label has both an \<^verbatim>\<open>x\<close> and a \<^verbatim>\<open>y\<close> column, the two are NaN
  in the same rows.
\<close>

definition both_or_neither :: "f64 list \<Rightarrow> f64 list \<Rightarrow> bool" where
  "both_or_neither xs ys = list_all (\<lambda>(a, b). isnan a = isnan b) (zip xs ys)"

definition missing_together :: "table \<Rightarrow> bool" where
  "missing_together df =
     list_all (\<lambda>k.
       case (map_of df (fst k, fst (snd k), ''x''), map_of df (fst k, fst (snd k), ''y'')) of
         (Some xs, Some ys) \<Rightarrow> both_or_neither xs ys
       | _ \<Rightarrow> True) (map fst df)"

text \<open>
  Two editors with the same store: they differ at most in the cursors, the pointer state
  and what was drawn. \<open>edits a b\<close>: the editor \<open>b\<close> comes from \<open>a\<close> by calls of
  \<^verbatim>\<open>_save_label\<close> and by changes outside the store.
\<close>

definition store_eq :: "editor \<Rightarrow> editor \<Rightarrow> bool" where
  "store_eq a b \<longleftrightarrow>
     label_file b = label_file a \<and> fixed_label_file b = fixed_label_file a
     \<and> label_data b = label_data a \<and> data_name b = data_name a
     \<and> label_names b = label_names a \<and> frame_count b = frame_count a
     \<and> changes_made b = changes_made a \<and> written b = written a"

inductive edits :: "editor \<Rightarrow> editor \<Rightarrow> bool" where
  edits_refl: "edits a a"
| edits_view: "edits a b \<Longrightarrow> store_eq b c \<Longrightarrow> edits a c"
| edits_save: "edits a b \<Longrightarrow> save_label x y b = Inr c \<Longrightarrow> edits a c"


text \<open>Occurrences of a separator in a string; none before the last possible position.\<close>

definition occurs_at :: "string \<Rightarrow> string \<Rightarrow> nat \<Rightarrow> bool" where
  "occurs_at sep s i \<longleftrightarrow> i + length sep \<le> length s \<and> take (length sep) (drop i s) = sep"

definition no_inner_occurrence :: "string \<Rightarrow> string \<Rightarrow> bool" where
  "no_inner_occurrence sep s = list_all (\<lambda>i. \<not> occurs_at sep s i) [0 ..< length s - length sep]"

section \<open>Functions of the specification\<close>


definition spec_strip_suffix :: "string \<Rightarrow> string \<Rightarrow> string" where
  "spec_strip_suffix sfx s =
     (if occurs_at sfx s (length s - length sfx) then take (length s - length sfx) s else s)"

section \<open>Invariants of a session\<close>

text \<open>
  The files follow the saves: so far only the H5 file was written, at its fixed path, it
  was written if and only if the session is marked as changed, and its last content is the
  table in memory.
\<close>

definition files_follow_saves :: "editor \<Rightarrow> bool" where
  "files_follow_saves ed \<longleftrightarrow>
     (\<forall>w \<in> set (written ed). \<exists>t. w = H5_write (fixed_label_file ed) t)
     \<and> (changes_made ed \<longleftrightarrow> written ed \<noteq> [])
     \<and> (written ed \<noteq> [] \<longrightarrow> last (written ed) = H5_write (fixed_label_file ed) (label_data ed))"

section \<open>Example data\<close>

text \<open>
  A table of three frames with the single label \<^verbatim>\<open>nose\<close>, missing in frame 1, and an
  editor opened on it with a video of three frames.
\<close>

definition nose_table :: table where
  "nose_table =
     [((''DLC'', ''nose'', ''x''), [Num 10, NaN, Num 30]),
      ((''DLC'', ''nose'', ''y''), [Num 10, NaN, Num 30]),
      ((''DLC'', ''nose'', ''likelihood''), [Num 1, Num 0, Num 1])]"

definition nose_editor :: editor where
  "nose_editor =
     \<lparr> label_file = ''/data/mouse.h5'', fixed_label_file = ''/data/mouse_Fixed.h5'',
       label_data = nose_table, data_name = ''DLC'', label_names = [''nose''],
       frame_count = 2, current_label = 0, current_frame = 0, mx = 0, my = 0,
       mouse_pressed = False, changes_made = False, written = [], shown = [] \<rparr>"

definition nose_table_saved :: table where
  \<comment> \<open>\<open>nose_table\<close> after the position (15,15) was saved in frame 1.\<close>
  "nose_table_saved =
     [((''DLC'', ''nose'', ''x''), [Num 10, Num 15, Num 30]),
      ((''DLC'', ''nose'', ''y''), [Num 10, Num 15, Num 30]),
      ((''DLC'', ''nose'', ''likelihood''), [Num 1, Num 0, Num 1])]"


definition nose_editor_browsed :: editor where
  \<comment> \<open>\<open>nose_editor\<close> after: next frame, quit.\<close>
  "nose_editor_browsed = nose_editor\<lparr>current_frame := 1, shown := [Some (10, 10), None]\<rparr>"

definition nose_editor_edited :: editor where
  \<comment> \<open>\<open>nose_editor\<close> after: next frame, press at (15,15), release.\<close>
  "nose_editor_edited =
     nose_editor\<lparr>current_frame := 1, mx := 15, my := 15, label_data := nose_table_saved,
       written := [H5_write ''/data/mouse_Fixed.h5'' nose_table_saved],
       changes_made := True,
       shown := [Some (10, 10), None, Some (15, 15)]\<rparr>"

definition nose_editor_ended :: editor where
  \<comment> \<open>\<open>nose_editor\<close> after: next frame, press at (15,15), release, quit.\<close>
  "nose_editor_ended =
     nose_editor\<lparr>current_frame := 1, mx := 15, my := 15, label_data := nose_table_saved,
       written := [H5_write ''/data/mouse_Fixed.h5'' nose_table_saved,
                   Mat_write ''/data/mouse.mat''
                     [(''nose'', \<lparr>x_arr = [Num 10, Num 15, Num 30],
                                  y_arr = [Num 10, Num 15, Num 30],
                                  ll_arr = [Num 1, Num 0, Num 1]\<rparr>)]],
       changes_made := True,
       shown := [Some (10, 10), None, Some (15, 15)]\<rparr>"

definition half_missing_editor :: editor where
  \<comment> \<open>The same editor on a table whose frame 0 has an \<^verbatim>\<open>x\<close> but no \<^verbatim>\<open>y\<close>.\<close>
  "half_missing_editor =
     nose_editor\<lparr>label_data :=
       [((''DLC'', ''nose'', ''x''), [Num 10, NaN, Num 30]),
        ((''DLC'', ''nose'', ''y''), [NaN, NaN, Num 30]),
        ((''DLC'', ''nose'', ''likelihood''), [Num 1, Num 0, Num 1])]\<rparr>"

section \<open>Basic facts\<close>

lemma ebind_Inr_iff: "ebind m f = Inr y \<longleftrightarrow> (\<exists>v. m = Inr v \<and> f v = Inr y)"
  by (cases m) (simp_all add: ebind_def)

lemma ebind_Inr [simp]: "ebind (Inr v) f = f v"
  by (simp add: ebind_def)

lemma ebind_Inl [simp]: "ebind (Inl e) f = Inl e"
  by (simp add: ebind_def)

section \<open>Writing a coordinate\<close>

lemma frame_set_Inr:
  assumes "frame_set df k i v = Inr df'"
  obtains c where "map_of df k = Some c" and "0 \<le> i" and "i < int (length c)"
    and "df' = AList.update k (c[nat i := Num (of_int v)]) df"
  using assms by (auto simp: frame_set_def split: option.splits if_splits)

lemma map_of_frame_set:
  assumes "frame_set df k i v = Inr df'"
  shows "map_of df' k' =
           (if k' = k then map_option (\<lambda>c. c[nat i := Num (of_int v)]) (map_of df k)
            else map_of df k')"
  using assms by (elim frame_set_Inr) (simp add: update_conv')


lemma keys_frame_set:
  assumes "frame_set df k i v = Inr df'"
  shows "map fst df' = map fst df"
proof -
  from assms obtain c where c: "map_of df k = Some c"
    and df': "df' = AList.update k (c[nat i := Num (of_int v)]) df"
    by (elim frame_set_Inr)
  from c have "k \<in> fst ` set df" by (rule map_of_SomeD [THEN imageI [where f = fst], simplified])
  then show ?thesis by (simp add: df' update_keys)
qed




section \<open>Dragging the pointer\<close>

text \<open>
  A mouse move while the button is down records the position in \<open>mx\<close>, \<open>my\<close> and redraws
  the marker there, but leaves the table and the files as they are.
\<close>

lemma mouse_move_keeps_table:
  "edit_label EVENT_MOUSEMOVE ex ey ed = Inr ed' \<Longrightarrow>
     label_data ed' = label_data ed \<and> written ed' = written ed
     \<and> changes_made ed' = changes_made ed"
  by (auto simp: display_label_def draw_label_def Let_def split: if_splits)

text \<open>
  C1: while the pointer is down every reported movement is written to the table at once, so
  that pressing at (5,5), dragging to (6,6) and (7,7) and releasing leaves (7,7) in the
  active cell, with the session marked as changed. The editor does mark the session as
  changed, and it draws the marker at (7,7) last, but the active cell holds (5,5), the
  position of the press: the movements were shown and never saved.
\<close>

theorem drag_positions_not_saved:
  "map_sum id (active_xy \<circ> session_editor)
     (run [Mouse EVENT_LBUTTONDOWN 5 5, Mouse EVENT_MOUSEMOVE 6 6,
           Mouse EVENT_MOUSEMOVE 7 7, Mouse EVENT_LBUTTONUP 7 7] nose_editor)
     = Inr (Some (Num 5), Some (Num 5))
   \<and> map_sum id (changes_made \<circ> session_editor)
     (run [Mouse EVENT_LBUTTONDOWN 5 5, Mouse EVENT_MOUSEMOVE 6 6,
           Mouse EVENT_MOUSEMOVE 7 7, Mouse EVENT_LBUTTONUP 7 7] nose_editor)
     = Inr True
   \<and> map_sum id (last \<circ> shown \<circ> session_editor)
     (run [Mouse EVENT_LBUTTONDOWN 5 5, Mouse EVENT_MOUSEMOVE 6 6,
           Mouse EVENT_MOUSEMOVE 7 7, Mouse EVENT_LBUTTONUP 7 7] nose_editor)
     = Inr (Some (7, 7))"
  by code_simp

section \<open>Reading a coordinate\<close>

text \<open>
  What \<^verbatim>\<open>_get_label_xy\<close> returns for a cell whose two channels exist: nothing when \<^verbatim>\<open>x\<close>
  is NaN, else both values rounded, which fails when \<^verbatim>\<open>y\<close> is NaN.
\<close>

lemma get_label_xy_cases:
  assumes "np_index (label_names ed) (current_label ed) = Inr l"
    and "cell (label_data ed) (data_name ed, l, ''x'') (current_frame ed) = Some x_f"
    and "cell (label_data ed) (data_name ed, l, ''y'') (current_frame ed) = Some y_f"
  shows "get_label_xy ed =
           (if isnan x_f then Inr (None, None)
            else ebind (int_round x_f) (\<lambda>x_i. ebind (int_round y_f) (\<lambda>y_i.
                   Inr (Some x_i, Some y_i))))"
proof -
  from assms(2,3) obtain xs ys where "map_of (label_data ed) (data_name ed, l, ''x'') = Some xs"
    "map_of (label_data ed) (data_name ed, l, ''y'') = Some ys"
    "0 \<le> current_frame ed" "current_frame ed < int (length xs)"
    "current_frame ed < int (length ys)"
    "xs ! nat (current_frame ed) = x_f" "ys ! nat (current_frame ed) = y_f"
    by (auto simp: cell_def split: option.splits if_splits)
  then show ?thesis
    by (cases "int_round x_f"; cases "int_round y_f")
       (simp_all add: get_label_xy_def assms(1) column_def series_get_def)
qed

lemma get_label_xy_missing_y:
  assumes "np_index (label_names ed) (current_label ed) = Inr l"
    and "cell (label_data ed) (data_name ed, l, ''x'') (current_frame ed) = Some (Num a)"
    and "cell (label_data ed) (data_name ed, l, ''y'') (current_frame ed) = Some NaN"
  shows "get_label_xy ed = Inl ValueError"
  by (simp add: get_label_xy_cases [OF assms])

text \<open>
  C3: reading the coordinate of an in-range (frame, label) pair returns the stored pair or
  a missing result and never raises, also when only one of the two channels is missing.
  With a number in \<^verbatim>\<open>x\<close> and NaN in \<^verbatim>\<open>y\<close> the read raises \<^verbatim>\<open>ValueError\<close>: the rounding of
  \<^verbatim>\<open>y\<close> is guarded by the NaN test of \<^verbatim>\<open>x\<close>.
\<close>

theorem get_label_xy_raises_on_missing_y:
  "get_label_xy half_missing_editor = Inl ValueError"
  by code_simp

section \<open>Sessions as sequences of saves\<close>

lemma h5_writes_append [simp]: "h5_writes (ws @ vs) = h5_writes ws @ h5_writes vs"
  by (induction ws rule: h5_writes.induct) simp_all

lemma edits_trans:
  assumes "edits b c" and "edits a b"
  shows "edits a c"
  using assms by induction (auto intro: edits.intros)

lemma edits_view1: "store_eq a b \<Longrightarrow> edits a b"
  by (blast intro: edits.intros)

lemma edits_save1: "save_label x y a = Inr b \<Longrightarrow> edits a b"
  by (blast intro: edits.intros)

lemma store_eq_draw_label [simp]: "store_eq a (draw_label x y b) = store_eq a b"
  by (simp add: store_eq_def draw_label_def)

lemma store_eq_refl [simp]: "store_eq a a"
  by (simp add: store_eq_def)

lemma on_label_trackbar_view: "on_label_trackbar val ed = Inr ed' \<Longrightarrow> store_eq ed ed'"
  by (auto simp: on_label_trackbar_def Let_def ebind_Inr_iff) (simp add: store_eq_def)

lemma on_frame_trackbar_view: "on_frame_trackbar val ed = Inr ed' \<Longrightarrow> store_eq ed ed'"
  by (auto simp: on_frame_trackbar_def Let_def ebind_Inr_iff) (simp add: store_eq_def)

lemma on_key_view: "store_eq ed (on_key key ed)"
  by (simp add: on_key_def store_eq_def)

lemma edit_label_edits: "edit_label ev ex ey ed = Inr ed' \<Longrightarrow> edits ed ed'"
proof (cases ev)
  case EVENT_LBUTTONDOWN
  assume "edit_label ev ex ey ed = Inr ed'"
  with EVENT_LBUTTONDOWN obtain ed2 where
    s: "save_label ex ey (ed\<lparr>mx := ex, my := ey\<rparr>) = Inr ed2"
    and e: "ed' = (display_label (mx ed2) (my ed2) ed2)\<lparr>mouse_pressed := True\<rparr>"
    by (auto simp: Let_def ebind_Inr_iff)
  have "store_eq ed (ed\<lparr>mx := ex, my := ey\<rparr>)" by (simp add: store_eq_def)
  then have "edits ed ed2" using s by (blast intro: edits.intros)
  moreover have "store_eq ed2 ed'" by (simp add: e store_eq_def display_label_def draw_label_def)
  ultimately show ?thesis by (rule edits_view)
next
  case EVENT_LBUTTONUP
  assume "edit_label ev ex ey ed = Inr ed'"
  with EVENT_LBUTTONUP have "store_eq ed ed'" by (auto simp: store_eq_def)
  then show ?thesis by (rule edits_view1)
next
  case EVENT_MOUSEMOVE
  assume "edit_label ev ex ey ed = Inr ed'"
  with EVENT_MOUSEMOVE have "store_eq ed ed'"
    by (auto simp: store_eq_def display_label_def draw_label_def Let_def split: if_splits)
  then show ?thesis by (rule edits_view1)
next
  case EVENT_OTHER
  assume "edit_label ev ex ey ed = Inr ed'"
  with EVENT_OTHER show ?thesis by (auto intro: edits.intros)
qed

lemma loop_body_edits: "loop_body ed = Inr ed' \<Longrightarrow> edits ed ed'"
proof (cases "mouse_pressed ed")
  case True
  assume "loop_body ed = Inr ed'"
  with True obtain ed2 where s: "save_label (mx ed) (my ed) ed = Inr ed2"
    and e: "ed' = draw_label (Some (mx ed)) (Some (my ed)) ed2"
    by (auto simp: loop_body_def ebind_Inr_iff)
  from s have "edits ed ed2" by (rule edits_save1)
  moreover have "store_eq ed2 ed'" by (simp add: e)
  ultimately show ?thesis by (rule edits_view)
next
  case False
  assume "loop_body ed = Inr ed'"
  with False have "store_eq ed ed'"
    by (auto simp: loop_body_def ebind_Inr_iff)
  then show ?thesis by (rule edits_view1)
qed

lemma wait_key_edits:
  "wait_key evs ed = Inr s \<Longrightarrow>
     \<exists>ed1. edits ed ed1 \<and> (s = Running ed1 \<or> (\<exists>ed'. finish ed1 = Inr ed' \<and> s = Ended ed'))"
proof (induction evs arbitrary: ed)
  case Nil
  then show ?case by (auto intro: edits_refl)
next
  case (Cons e evs)
  show ?case
  proof (cases e)
    case (Mouse ev ex ey)
    with Cons.prems obtain ed2 where "edit_label ev ex ey ed = Inr ed2" "wait_key evs ed2 = Inr s"
      by (auto simp: ebind_Inr_iff)
    then show ?thesis
      using Cons.IH [of ed2] by (blast dest: edit_label_edits intro: edits_trans)
  next
    case (LabelTrackbar val)
    with Cons.prems obtain ed2 where "on_label_trackbar val ed = Inr ed2" "wait_key evs ed2 = Inr s"
      by (auto simp: ebind_Inr_iff)
    then show ?thesis
      using Cons.IH [of ed2] by (blast dest: on_label_trackbar_view edits_view1 intro: edits_trans)
  next
    case (FrameTrackbar val)
    with Cons.prems obtain ed2 where "on_frame_trackbar val ed = Inr ed2" "wait_key evs ed2 = Inr s"
      by (auto simp: ebind_Inr_iff)
    then show ?thesis
      using Cons.IH [of ed2] by (blast dest: on_frame_trackbar_view edits_view1 intro: edits_trans)
  next
    case (Key key)
    have k: "edits ed (on_key key ed)" by (rule edits_view1) (rule on_key_view)
    show ?thesis
    proof (cases "key = 27")
      case True
      with Key Cons.prems obtain ed' where "finish (on_key key ed) = Inr ed'" "s = Ended ed'"
        by (auto simp: ebind_Inr_iff Let_def)
      with k show ?thesis by blast
    next
      case False
      with Key Cons.prems obtain ed2 where "loop_body (on_key key ed) = Inr ed2"
        "wait_key evs ed2 = Inr s"
        by (auto simp: ebind_Inr_iff Let_def)
      then show ?thesis
        using Cons.IH [of ed2] k by (blast dest: loop_body_edits intro: edits_trans)
    qed
  qed
qed

lemma run_edits:
  assumes "run evs ed = Inr s"
  shows "\<exists>ed1. edits ed ed1 \<and> (s = Running ed1 \<or> (\<exists>ed'. finish ed1 = Inr ed' \<and> s = Ended ed'))"
proof -
  from assms obtain ed2 where "loop_body ed = Inr ed2" "wait_key evs ed2 = Inr s"
    by (auto simp: run_def ebind_Inr_iff)
  then show ?thesis
    using wait_key_edits [of evs ed2 s] by (blast dest: loop_body_edits intro: edits_trans)
qed

lemma save_matlab_file_Inr:
  assumes "save_matlab_file ed = Inr (p, ed')"
  obtains m where "ed' = ed\<lparr>written := written ed @ [Mat_write p m]\<rparr>"
    and "mat_loop (label_data ed) (data_name ed) (label_names ed) [] = Inr m"
  using assms by (auto simp: save_matlab_file_def Let_def ebind_Inr_iff)

lemma finish_Inr:
  assumes "finish ed = Inr ed'"
  shows "label_data ed' = label_data ed \<and> changes_made ed' = changes_made ed
     \<and> fixed_label_file ed' = fixed_label_file ed
     \<and> h5_writes (written ed') = h5_writes (written ed)
     \<and> (\<not> changes_made ed \<longrightarrow> written ed' = written ed)"
  using assms
  by (auto simp: finish_def ebind_Inr_iff split: if_splits elim!: save_matlab_file_Inr)

section \<open>Missing together\<close>

lemma missing_together_iff:
  "missing_together df \<longleftrightarrow>
     (\<forall>dn l xs ys. map_of df (dn, l, ''x'') = Some xs \<longrightarrow> map_of df (dn, l, ''y'') = Some ys
        \<longrightarrow> both_or_neither xs ys)"
proof
  assume mt: "missing_together df"
  show "\<forall>dn l xs ys. map_of df (dn, l, ''x'') = Some xs \<longrightarrow> map_of df (dn, l, ''y'') = Some ys
        \<longrightarrow> both_or_neither xs ys"
  proof (intro allI impI)
    fix dn l xs ys
    assume x: "map_of df (dn, l, ''x'') = Some xs" and y: "map_of df (dn, l, ''y'') = Some ys"
    from x have "((dn, l, ''x''), xs) \<in> set df" by (rule map_of_SomeD)
    then have "(dn, l, ''x'') \<in> set (map fst df)" by force
    with mt x y show "both_or_neither xs ys"
      by (auto simp: missing_together_def list_all_iff)
  qed
next
  assume "\<forall>dn l xs ys. map_of df (dn, l, ''x'') = Some xs \<longrightarrow> map_of df (dn, l, ''y'') = Some ys
        \<longrightarrow> both_or_neither xs ys"
  then show "missing_together df"
    by (auto simp: missing_together_def list_all_iff split: option.splits)
qed

lemma both_or_neither_update:
  assumes "both_or_neither xs ys"
  shows "both_or_neither (xs[i := Num a]) (ys[i := Num b])"
proof -
  have "set ((zip xs ys)[i := (Num a, Num b)]) \<subseteq> insert (Num a, Num b) (set (zip xs ys))"
    by (rule set_update_subset_insert)
  with assms show ?thesis
    by (auto simp: both_or_neither_def list_all_iff zip_update [symmetric])
qed

lemma save_label_missing_together:
  assumes "save_label x y ed = Inr ed'" and mt: "missing_together (label_data ed)"
  shows "missing_together (label_data ed')"
proof -
  from assms obtain name df1 df2 where
    df1: "frame_set (label_data ed) (data_name ed, name, ''x'') (current_frame ed) x = Inr df1"
    and df2: "frame_set df1 (data_name ed, name, ''y'') (current_frame ed) y = Inr df2"
    and ed': "label_data ed' = df2"
    by (auto simp: save_label_def ebind_Inr_iff)
  let ?i = "nat (current_frame ed)"
  have m: "map_of df2 k =
      (if k = (data_name ed, name, ''y'')
         then map_option (\<lambda>c. c[?i := Num (of_int y)]) (map_of (label_data ed) k)
       else if k = (data_name ed, name, ''x'')
         then map_option (\<lambda>c. c[?i := Num (of_int x)]) (map_of (label_data ed) k)
       else map_of (label_data ed) k)" for k
    by (simp add: map_of_frame_set [OF df2] map_of_frame_set [OF df1])
  from mt have old: "map_of (label_data ed) (dn, l, ''x'') = Some xs
      \<Longrightarrow> map_of (label_data ed) (dn, l, ''y'') = Some ys \<Longrightarrow> both_or_neither xs ys"
    for dn l xs ys
    by (simp add: missing_together_iff)
  show ?thesis
    unfolding ed' missing_together_iff
  proof (intro allI impI)
    fix dn l xs ys
    assume x: "map_of df2 (dn, l, ''x'') = Some xs" and y: "map_of df2 (dn, l, ''y'') = Some ys"
    show "both_or_neither xs ys"
    proof (cases "dn = data_name ed \<and> l = name")
      case True
      with x y obtain cx cy where "map_of (label_data ed) (dn, l, ''x'') = Some cx"
        "map_of (label_data ed) (dn, l, ''y'') = Some cy"
        "xs = cx[?i := Num (of_int x)]" "ys = cy[?i := Num (of_int y)]"
        by (auto simp: m)
      then show ?thesis using old both_or_neither_update by blast
    next
      case False
      with x y have "map_of (label_data ed) (dn, l, ''x'') = Some xs"
        "map_of (label_data ed) (dn, l, ''y'') = Some ys"
        by (auto simp: m split: if_splits)
      then show ?thesis by (rule old)
    qed
  qed
qed

lemma edits_missing_together:
  "edits a b \<Longrightarrow> missing_together (label_data a) \<Longrightarrow> missing_together (label_data b)"
  by (induction rule: edits.induct) (auto simp: store_eq_def dest: save_label_missing_together)


lemma missing_together_cells:
  assumes "missing_together df"
    and "cell df (dn, l, ''x'') i = Some a" and "cell df (dn, l, ''y'') i = Some b"
  shows "isnan a = isnan b"
proof -
  from assms(2,3) obtain xs ys where x: "map_of df (dn, l, ''x'') = Some xs"
    and y: "map_of df (dn, l, ''y'') = Some ys"
    and i: "0 \<le> i" "i < int (length xs)" "i < int (length ys)"
    and a: "a = xs ! nat i" and b: "b = ys ! nat i"
    by (auto simp: cell_def split: option.splits if_splits)
  from assms(1) x y have "both_or_neither xs ys" by (simp add: missing_together_iff)
  moreover from i have "(a, b) \<in> set (zip xs ys)"
    unfolding a b by (auto simp: set_zip intro!: exI [of _ "nat i"])
  ultimately show ?thesis by (auto simp: both_or_neither_def list_all_iff)
qed

text \<open>
  C6: missing together is preserved by every operation of the session: if it holds for the
  table the session starts with, it holds for the table of every state the session reaches,
  so that in every cell \<^verbatim>\<open>x\<close> is NaN exactly when \<^verbatim>\<open>y\<close> is.
\<close>

theorem missing_together_preserved:
  assumes "missing_together (label_data ed)" and "run evs ed = Inr s"
  shows "missing_together (label_data (session_editor s))
     \<and> (\<forall>dn l i a b. cell (label_data (session_editor s)) (dn, l, ''x'') i = Some a
            \<longrightarrow> cell (label_data (session_editor s)) (dn, l, ''y'') i = Some b
            \<longrightarrow> isnan a = isnan b)"
proof -
  from run_edits [OF assms(2)] obtain ed1 where e: "edits ed ed1"
    and s: "s = Running ed1 \<or> (\<exists>ed'. finish ed1 = Inr ed' \<and> s = Ended ed')"
    by blast
  from e assms(1) have "missing_together (label_data ed1)" by (rule edits_missing_together)
  with s have "missing_together (label_data (session_editor s))" by (auto dest: finish_Inr)
  then show ?thesis by (blast dest: missing_together_cells)
qed

theorem missing_together_preserved_witness:
  "missing_together (label_data nose_editor)
   \<and> run [Key 46, Mouse EVENT_LBUTTONDOWN 15 15, Mouse EVENT_LBUTTONUP 15 15, Key 27]
         nose_editor = Inr (Ended nose_editor_ended)
   \<and> missing_together (label_data (session_editor (Ended nose_editor_ended)))"
proof -
  have h1: "missing_together (label_data nose_editor)" by code_simp
  have h2: "run [Key 46, Mouse EVENT_LBUTTONDOWN 15 15, Mouse EVENT_LBUTTONUP 15 15, Key 27]
              nose_editor = Inr (Ended nose_editor_ended)"
    by code_simp
  from missing_together_preserved [OF h1 h2] h1 h2 show ?thesis by blast
qed

section \<open>The output files\<close>

lemma save_label_written:
  assumes "save_label x y ed = Inr ed'"
  shows "written ed' = written ed @ [H5_write (fixed_label_file ed) (label_data ed')]
     \<and> changes_made ed' \<and> fixed_label_file ed' = fixed_label_file ed"
  using assms by (auto simp: save_label_def ebind_Inr_iff)

lemma fixed_label_path_total: "\<exists>p. fixed_label_path lf = Inr p"
  by (simp add: fixed_label_path_def rsplit_def Let_def)

lemma Editor_init_fresh:
  assumes "Editor_init lf df n = Inr ed0"
  shows "\<not> changes_made ed0 \<and> written ed0 = [] \<and> label_file ed0 = lf \<and> label_data ed0 = df"
  using assms by (auto simp: Editor_init_def ebind_Inr_iff)

lemma edits_files_follow_saves:
  "edits a b \<Longrightarrow> files_follow_saves a \<Longrightarrow> files_follow_saves b"
proof (induction rule: edits.induct)
  case (edits_refl a)
  then show ?case .
next
  case (edits_view a b c)
  then show ?case by (simp add: files_follow_saves_def store_eq_def)
next
  case (edits_save a b x y c)
  then have "files_follow_saves b" by simp
  with save_label_written [OF edits_save.hyps(2)] show ?case
    by (auto simp: files_follow_saves_def)
qed



text \<open>
  C4: when no edit occurred in the session (the session is not marked as changed), no
  output file is produced: neither the H5 file nor the MAT file is written.
\<close>

theorem no_edit_no_files:
  assumes "Editor_init lf df n = Inr ed0" and "run evs ed0 = Inr s"
    and "\<not> changes_made (session_editor s)"
  shows "written (session_editor s) = []"
proof -
  from assms(1) have "files_follow_saves ed0"
    by (simp add: files_follow_saves_def Editor_init_fresh)
  moreover from run_edits [OF assms(2)] obtain ed1 where e: "edits ed0 ed1"
    and s: "s = Running ed1 \<or> (\<exists>ed'. finish ed1 = Inr ed' \<and> s = Ended ed')"
    by blast
  ultimately have f: "files_follow_saves ed1" by (blast intro: edits_files_follow_saves)
  from s assms(3) have "\<not> changes_made ed1" and "written (session_editor s) = written ed1"
    by (auto dest: finish_Inr)
  with f show ?thesis by (simp add: files_follow_saves_def)
qed

theorem no_edit_no_files_witness:
  "Editor_init ''/data/mouse.h5'' nose_table 3 = Inr nose_editor
   \<and> run [Key 46, Key 27] nose_editor = Inr (Ended nose_editor_browsed)
   \<and> \<not> changes_made (session_editor (Ended nose_editor_browsed))
   \<and> written (session_editor (Ended nose_editor_browsed)) = []"
proof -
  have h1: "Editor_init ''/data/mouse.h5'' nose_table 3 = Inr nose_editor" by code_simp
  have h2: "run [Key 46, Key 27] nose_editor = Inr (Ended nose_editor_browsed)" by code_simp
  have h3: "\<not> changes_made (session_editor (Ended nose_editor_browsed))" by code_simp
  from no_edit_no_files [OF h1 h2 h3] h1 h2 h3 show ?thesis by blast
qed






section \<open>The MAT file\<close>

lemma column_Inr_iff: "column df k = Inr c \<longleftrightarrow> map_of df k = Some c"
  by (simp add: column_def split: option.splits)

lemma mat_loop_Inr:
  assumes "mat_loop df dn ls acc = Inr m"
  shows "\<forall>l \<in> set ls. \<exists>s. map_of m l = Some s
            \<and> map_of df (dn, l, ''x'') = Some (x_arr s)
            \<and> map_of df (dn, l, ''y'') = Some (y_arr s)
            \<and> map_of df (dn, l, ''likelihood'') = Some (ll_arr s)"
    and "\<forall>l. l \<notin> set ls \<longrightarrow> map_of m l = map_of acc l"
    and "fst ` set m = set ls \<union> fst ` set acc"
  using assms
proof (induction ls arbitrary: acc)
  case Nil
  {
    case 1 then show ?case by simp
  next
    case 2 then show ?case by simp
  next
    case 3 then show ?case by simp
  }
next
  case (Cons l ls)
  {
    case 1
    then obtain xs ys lls where x: "map_of df (dn, l, ''x'') = Some xs"
      and y: "map_of df (dn, l, ''y'') = Some ys"
      and ll: "map_of df (dn, l, ''likelihood'') = Some lls"
      and rest: "mat_loop df dn ls
                   (AList.update l \<lparr>x_arr = xs, y_arr = ys, ll_arr = lls\<rparr> acc) = Inr m"
      by (auto simp: ebind_Inr_iff column_Inr_iff)
    have "\<exists>s. map_of m l = Some s \<and> map_of df (dn, l, ''x'') = Some (x_arr s)
            \<and> map_of df (dn, l, ''y'') = Some (y_arr s)
            \<and> map_of df (dn, l, ''likelihood'') = Some (ll_arr s)"
    proof (cases "l \<in> set ls")
      case True
      with Cons.IH(1) [OF rest] show ?thesis by blast
    next
      case False
      with Cons.IH(2) [OF rest] have "map_of m l = Some \<lparr>x_arr = xs, y_arr = ys, ll_arr = lls\<rparr>"
        by (simp add: update_conv')
      with x y ll show ?thesis by simp
    qed
    with Cons.IH(1) [OF rest] show ?case by simp
  next
    case 2
    then obtain s where rest: "mat_loop df dn ls (AList.update l s acc) = Inr m"
      by (auto simp: ebind_Inr_iff)
    from Cons.IH(2) [OF rest] show ?case by (simp add: update_conv')
  next
    case 3
    then obtain s where rest: "mat_loop df dn ls (AList.update l s acc) = Inr m"
      by (auto simp: ebind_Inr_iff)
    from Cons.IH(3) [OF rest] show ?case by (auto simp: dom_update)
  }
qed

lemma mat_loop_total:
  "has_channels df dn ls \<Longrightarrow> \<exists>m. mat_loop df dn ls acc = Inr m"
proof (induction ls arbitrary: acc)
  case Nil
  then show ?case by simp
next
  case (Cons l ls)
  then obtain xs ys lls where "column df (dn, l, ''x'') = Inr xs"
    "column df (dn, l, ''y'') = Inr ys" "column df (dn, l, ''likelihood'') = Inr lls"
    by (auto simp: has_channels_def column_Inr_iff)
  moreover from Cons.prems have "has_channels df dn ls" by (simp add: has_channels_def)
  ultimately show ?case using Cons.IH by simp
qed

lemma rectangular_length: "rectangular N df \<Longrightarrow> map_of df k = Some c \<Longrightarrow> length c = N"
  by (auto simp: rectangular_def list_all_iff dest!: map_of_SomeD)

text \<open>
  C8: the secondary export holds, for every label name, exactly the three sequences
  \<^verbatim>\<open>x\<close>, \<^verbatim>\<open>y\<close>, \<^verbatim>\<open>likelihood\<close>, each in frame order and of length \<open>N\<close>, the number of
  frames. They are the columns of the table in memory as it is when the export runs;
  nothing is read back from the H5 file written before.
\<close>

theorem secondary_export_shape:
  assumes "has_channels (label_data ed) (data_name ed) (label_names ed)"
    and "rectangular N (label_data ed)"
  shows "\<exists>m. save_matlab_file ed
              = Inr (mat_path (label_file ed),
                     ed\<lparr>written := written ed @ [Mat_write (mat_path (label_file ed)) m]\<rparr>)
     \<and> fst ` set m = set (label_names ed)
     \<and> (\<forall>l \<in> set (label_names ed). \<exists>s. map_of m l = Some s
            \<and> map_of (label_data ed) (data_name ed, l, ''x'') = Some (x_arr s)
            \<and> map_of (label_data ed) (data_name ed, l, ''y'') = Some (y_arr s)
            \<and> map_of (label_data ed) (data_name ed, l, ''likelihood'') = Some (ll_arr s)
            \<and> length (x_arr s) = N \<and> length (y_arr s) = N \<and> length (ll_arr s) = N)"
proof -
  from mat_loop_total [OF assms(1)] obtain m where
    m: "mat_loop (label_data ed) (data_name ed) (label_names ed) [] = Inr m"
    by blast
  then have "save_matlab_file ed
              = Inr (mat_path (label_file ed),
                     ed\<lparr>written := written ed @ [Mat_write (mat_path (label_file ed)) m]\<rparr>)"
    by (simp add: save_matlab_file_def mat_path_def Let_def)
  moreover from mat_loop_Inr(3) [OF m] have "fst ` set m = set (label_names ed)" by simp
  moreover from mat_loop_Inr(1) [OF m] rectangular_length [OF assms(2)]
  have "\<forall>l \<in> set (label_names ed). \<exists>s. map_of m l = Some s
            \<and> map_of (label_data ed) (data_name ed, l, ''x'') = Some (x_arr s)
            \<and> map_of (label_data ed) (data_name ed, l, ''y'') = Some (y_arr s)
            \<and> map_of (label_data ed) (data_name ed, l, ''likelihood'') = Some (ll_arr s)
            \<and> length (x_arr s) = N \<and> length (y_arr s) = N \<and> length (ll_arr s) = N"
    by metis
  ultimately show ?thesis by blast
qed

theorem secondary_export_shape_witness:
  "has_channels (label_data nose_editor_edited) (data_name nose_editor_edited)
     (label_names nose_editor_edited)
   \<and> rectangular 3 (label_data nose_editor_edited)
   \<and> (\<exists>m. save_matlab_file nose_editor_edited
              = Inr (mat_path (label_file nose_editor_edited),
                     nose_editor_edited\<lparr>written := written nose_editor_edited
                        @ [Mat_write (mat_path (label_file nose_editor_edited)) m]\<rparr>)
          \<and> fst ` set m = set (label_names nose_editor_edited))"
proof -
  have h1: "has_channels (label_data nose_editor_edited) (data_name nose_editor_edited)
              (label_names nose_editor_edited)"
    by code_simp
  have h2: "rectangular 3 (label_data nose_editor_edited)" by code_simp
  from secondary_export_shape [OF h1 h2] h1 h2 show ?thesis by blast
qed

section \<open>The editor and the converter\<close>

lemma mc_mat_loop_eq:
  "mc_mat_loop mc ls acc = mat_loop (mc_label_data mc) (mc_data_name mc) ls acc"
  by (induction ls arbitrary: acc) (simp_all add: ebind_def split: sum.splits)

lemma save_matlab_file_eq_converter:
  "map_sum id last_write (save_matlab_file ed)
     = mc_save_matlab_file \<lparr>mc_label_file = label_file ed, mc_label_data = label_data ed,
                             mc_data_name = data_name ed, mc_label_names = label_names ed\<rparr>"
  by (simp add: save_matlab_file_def mc_save_matlab_file_def mc_mat_loop_eq Let_def
      ebind_def last_write_def split: sum.splits)

lemma first_data_name_keys:
  "map fst df' = map fst df \<Longrightarrow> first_data_name df' = first_data_name df"
  by (cases df; cases df') (auto simp: first_data_name_def)

lemma edits_static:
  "edits a b \<Longrightarrow> label_file b = label_file a \<and> data_name b = data_name a
     \<and> label_names b = label_names a \<and> map fst (label_data b) = map fst (label_data a)"
proof (induction rule: edits.induct)
  case (edits_refl a)
  then show ?case by simp
next
  case (edits_view a b c)
  then show ?case by (simp add: store_eq_def)
next
  case (edits_save a b x y c)
  from edits_save.hyps(2) obtain df1 df2 n1 n2 where
    "frame_set (label_data b) (data_name b, n1, ''x'') (current_frame b) x = Inr df1"
    "frame_set df1 (data_name b, n2, ''y'') (current_frame b) y = Inr df2"
    "c = b\<lparr>label_data := df2, written := written b @ [H5_write (fixed_label_file b) df2],
           changes_made := True\<rparr>"
    by (auto simp: save_label_def ebind_Inr_iff)
  with edits_save.IH show ?case by (simp add: keys_frame_set)
qed

text \<open>
  C10: on the same table the editor, exporting at the end of a session, and the standalone
  converter, loading the table anew, make the same \<^verbatim>\<open>savemat\<close> call: the same dictionary of
  \<^verbatim>\<open>x\<close>, \<^verbatim>\<open>y\<close>, \<^verbatim>\<open>likelihood\<close> per label (or the same exception), at the same path, which
  is the label file's directory and base name with the extension \<^verbatim>\<open>.mat\<close>.
\<close>

theorem converter_agrees_with_editor:
  assumes "Editor_init lf df n = Inr ed0" and "run evs ed0 = Inr (Running ed)"
  shows "map_sum id last_write (save_matlab_file ed)
           = ebind (MatConverter_init lf (label_data ed)) mc_save_matlab_file
     \<and> (\<forall>p w. map_sum id last_write (save_matlab_file ed) = Inr (p, w) \<longrightarrow> p = mat_path lf)"
proof -
  from run_edits [OF assms(2)] have e: "edits ed0 ed" by auto
  from assms(1) have i: "label_file ed0 = lf" "label_data ed0 = df"
    "first_data_name df = Inr (data_name ed0)"
    "label_names ed0 = np_unique (map (\<lambda>k. fst (snd k)) (map fst df))"
    by (auto simp: Editor_init_def ebind_Inr_iff)
  from edits_static [OF e] i have
    "MatConverter_init lf (label_data ed)
       = Inr \<lparr>mc_label_file = label_file ed, mc_label_data = label_data ed,
              mc_data_name = data_name ed, mc_label_names = label_names ed\<rparr>"
    by (simp add: MatConverter_init_def first_data_name_keys [of "label_data ed" df])
  then have 1: "map_sum id last_write (save_matlab_file ed)
           = ebind (MatConverter_init lf (label_data ed)) mc_save_matlab_file"
    by (simp add: save_matlab_file_eq_converter)
  from edits_static [OF e] i have "label_file ed = lf" by simp
  then have 2: "\<forall>p w. map_sum id last_write (save_matlab_file ed) = Inr (p, w)
                  \<longrightarrow> p = mat_path lf"
    by (auto simp: save_matlab_file_def mat_path_def Let_def ebind_def last_write_def
        split: sum.splits)
  from 1 2 show ?thesis ..
qed

theorem converter_agrees_with_editor_witness:
  "Editor_init ''/data/mouse.h5'' nose_table 3 = Inr nose_editor
   \<and> run [Key 46, Mouse EVENT_LBUTTONDOWN 15 15, Mouse EVENT_LBUTTONUP 15 15] nose_editor
       = Inr (Running nose_editor_edited)
   \<and> map_sum id last_write (save_matlab_file nose_editor_edited)
       = ebind (MatConverter_init ''/data/mouse.h5'' (label_data nose_editor_edited))
           mc_save_matlab_file
   \<and> ebind (MatConverter_init ''/data/mouse.h5'' (label_data nose_editor_edited))
         mc_save_matlab_file
       = Inr (''/data/mouse.mat'',
              Mat_write ''/data/mouse.mat''
                [(''nose'', \<lparr>x_arr = [Num 10, Num 15, Num 30],
                             y_arr = [Num 10, Num 15, Num 30],
                             ll_arr = [Num 1, Num 0, Num 1]\<rparr>)])"
proof -
  have h1: "Editor_init ''/data/mouse.h5'' nose_table 3 = Inr nose_editor" by code_simp
  have h2: "run [Key 46, Mouse EVENT_LBUTTONDOWN 15 15, Mouse EVENT_LBUTTONUP 15 15]
              nose_editor = Inr (Running nose_editor_edited)"
    by code_simp
  have c: "ebind (MatConverter_init ''/data/mouse.h5'' (label_data nose_editor_edited))
             mc_save_matlab_file
       = Inr (''/data/mouse.mat'',
              Mat_write ''/data/mouse.mat''
                [(''nose'', \<lparr>x_arr = [Num 10, Num 15, Num 30],
                             y_arr = [Num 10, Num 15, Num 30],
                             ll_arr = [Num 1, Num 0, Num 1]\<rparr>)])"
    by code_simp
  from converter_agrees_with_editor [OF h1 h2] h1 h2 c show ?thesis by blast
qed

section \<open>Moving the cursors\<close>







section \<open>The path of the fixed label file\<close>

lemma rfind_None_iff: "rfind sep s = None \<longleftrightarrow> (\<forall>i. \<not> occurs_at sep s i)"
proof (cases "length s < length sep")
  case True
  then show ?thesis by (simp add: rfind_def occurs_at_def)
next
  case False
  then have "set (rev [0 ..< length s - length sep + 1]) = {i. i + length sep \<le> length s}"
    by (auto simp del: upt_Suc)
  with False show ?thesis
    by (simp add: rfind_def find_None_iff occurs_at_def del: upt_Suc)
qed

lemma rfind_Some_occurs: "rfind sep s = Some pos \<Longrightarrow> occurs_at sep s pos"
  by (simp add: occurs_at_def rfind_Some)

lemma hd_rsplit_loop:
  assumes "sep \<noteq> []" and "no_inner_occurrence sep s"
  shows "hd (rsplit_loop sep s []) = spec_strip_suffix sep s"
proof (cases "rfind sep s")
  case None
  then have "\<not> occurs_at sep s (length s - length sep)" by (simp add: rfind_None_iff)
  with None assms(1) show ?thesis
    by (subst rsplit_loop.simps) (simp add: spec_strip_suffix_def)
next
  case (Some pos)
  then have o: "occurs_at sep s pos" by (rule rfind_Some_occurs)
  from assms(2) have inner: "\<not> occurs_at sep s i" if "i < length s - length sep" for i
    using that by (simp add: no_inner_occurrence_def list_all_iff)
  from o have "pos + length sep \<le> length s" by (simp add: occurs_at_def)
  moreover from o inner [of pos] have "\<not> pos < length s - length sep" by blast
  ultimately have pos: "pos = length s - length sep" by arith
  have "\<not> occurs_at sep (take pos s) i" for i
  proof
    assume a: "occurs_at sep (take pos s) i"
    then have b: "i + length sep \<le> pos" and "pos \<le> length s"
      using o by (auto simp: occurs_at_def)
    with a have "occurs_at sep s i"
      by (auto simp: occurs_at_def take_drop min_def split: if_splits)
    moreover from assms(1) have "0 < length sep" by simp
    with b have "i < length s - length sep" unfolding pos by arith
    ultimately show False using inner by blast
  qed
  then have n: "rfind sep (take pos s) = None" by (simp add: rfind_None_iff)
  have "rsplit_loop sep s [] = rsplit_loop sep (take pos s) [drop (pos + length sep) s]"
    using assms(1) Some by (subst rsplit_loop.simps) simp
  also have "\<dots> = [take pos s, drop (pos + length sep) s]"
    using assms(1) n by (subst rsplit_loop.simps) simp
  finally show ?thesis using o by (simp add: spec_strip_suffix_def pos)
qed

text \<open>
  C9: the primary output path is the input file's directory joined with the input's base
  name, a trailing \<^verbatim>\<open>_Fixed\<close> removed, then \<^verbatim>\<open>_Fixed\<close> and the input's extension. The
  program cuts the base name at its first \<^verbatim>\<open>_Fixed\<close>, trailing or not, and always appends
  \<^verbatim>\<open>.h5\<close>: \<^verbatim>\<open>mouse_Fixed_v2.h5\<close> and \<^verbatim>\<open>mouse.H5\<close> both give \<^verbatim>\<open>mouse_Fixed.h5\<close>.
\<close>

theorem fixed_label_path_cuts_at_first_Fixed:
  "fixed_label_path ''/data/mouse_Fixed_v2.h5'' = Inr ''/data/mouse_Fixed.h5''
   \<and> fixed_label_path ''/data/mouse.H5'' = Inr ''/data/mouse_Fixed.h5''"
  by code_simp

text \<open>
  C9, amended: for every input path whose base name (without extension) contains
  \<^verbatim>\<open>_Fixed\<close> nowhere but possibly at its end, the primary output path is the normalised
  join of the input file's directory with that base name, a trailing \<^verbatim>\<open>_Fixed\<close> removed,
  followed by \<^verbatim>\<open>_Fixed\<close> and the extension \<^verbatim>\<open>.h5\<close>.
\<close>

theorem fixed_label_path_strips_trailing_Fixed:
  assumes "no_inner_occurrence ''_Fixed'' (fst (splitext (basename (normpath lf))))"
  shows "fixed_label_path lf
    = Inr (normpath (path_join (dirname (normpath lf))
             (spec_strip_suffix ''_Fixed'' (fst (splitext (basename (normpath lf))))
                @ ''_Fixed'' @ ''.h5'')))"
  using hd_rsplit_loop [OF _ assms]
  by (simp add: fixed_label_path_def rsplit_def Let_def)

theorem fixed_label_path_strips_trailing_Fixed_witness:
  "no_inner_occurrence ''_Fixed''
     (fst (splitext (basename (normpath ''/data/mouse_Fixed.h5''))))
   \<and> spec_strip_suffix ''_Fixed''
       (fst (splitext (basename (normpath ''/data/mouse_Fixed.h5'')))) = ''mouse''
   \<and> fixed_label_path ''/data/mouse_Fixed.h5''
       = Inr (normpath (path_join (dirname (normpath ''/data/mouse_Fixed.h5''))
                (spec_strip_suffix ''_Fixed''
                   (fst (splitext (basename (normpath ''/data/mouse_Fixed.h5''))))
                 @ ''_Fixed'' @ ''.h5'')))"
proof -
  have h: "no_inner_occurrence ''_Fixed''
             (fst (splitext (basename (normpath ''/data/mouse_Fixed.h5''))))"
    by code_simp
  have c: "spec_strip_suffix ''_Fixed''
             (fst (splitext (basename (normpath ''/data/mouse_Fixed.h5'')))) = ''mouse''"
    by code_simp
  from fixed_label_path_strips_trailing_Fixed [OF h] h c show ?thesis by blast
qed

end
